theory Spec2Isabelle
  imports Complex_Main
begin

section \<open>Python text primitives used by plotGUI\_offline.py\<close>

text \<open>
  A Python \<open>str\<close> is modelled as a \<open>string\<close> whose characters are the code points
  below 256. The whitespace that \<open>str.rstrip()\<close> removes in that range is
  9-13, 28-32, 133 and 160; \<open>float()\<close> and \<open>int()\<close> skip 9-13, 32, 133 and 160 at
  both ends of their argument.
\<close>

datatype pyerror = ValueError | IndexError | OverflowError | FileNotFoundError | SerialException

definition is_space :: "char \<Rightarrow> bool" where
  "is_space c = (let n = (of_char c :: nat)
                 in (9 \<le> n \<and> n \<le> 13) \<or> (28 \<le> n \<and> n \<le> 32) \<or> n = 133 \<or> n = 160)"

definition is_num_space :: "char \<Rightarrow> bool" where
  "is_num_space c = (let n = (of_char c :: nat)
                     in (9 \<le> n \<and> n \<le> 13) \<or> n = 32 \<or> n = 133 \<or> n = 160)"

definition is_digit :: "char \<Rightarrow> bool" where
  "is_digit c = (let n = (of_char c :: nat) in 48 \<le> n \<and> n \<le> 57)"

definition digit_val :: "char \<Rightarrow> nat" where
  "digit_val c = (of_char c :: nat) - 48"

definition rstrip :: "string \<Rightarrow> string" where
  "rstrip s = rev (dropWhile is_space (rev s))"

definition num_strip :: "string \<Rightarrow> string" where
  "num_strip s = dropWhile is_num_space (rev (dropWhile is_num_space (rev s)))"

text \<open>\<open>s.replace(" ", "")\<close>\<close>

definition remove_spaces :: "string \<Rightarrow> string" where
  "remove_spaces s = filter (\<lambda>c. c \<noteq> CHR '' '') s"

text \<open>\<open>s.split(",")\<close>: never empty, one field more than there are commas.\<close>

fun split_comma :: "string \<Rightarrow> string list" where
  "split_comma [] = [[]]"
| "split_comma (c # cs) =
     (if c = CHR '','' then [] # split_comma cs
      else (case split_comma cs of
              [] \<Rightarrow> [[c]]
            | f # fs \<Rightarrow> (c # f) # fs))"

text \<open>\<open>",".join(data)\<close>\<close>

fun join_comma :: "string list \<Rightarrow> string" where
  "join_comma [] = []"
| "join_comma [x] = x"
| "join_comma (x # y # ys) = x @ CHR '','' # join_comma (y # ys)"

text \<open>Indexing a list with a non-negative literal index: \<open>None\<close> stands for IndexError.\<close>

fun nth_opt :: "'a list \<Rightarrow> nat \<Rightarrow> 'a option" where
  "nth_opt [] n = None"
| "nth_opt (x # xs) 0 = Some x"
| "nth_opt (x # xs) (Suc n) = nth_opt xs n"

text \<open>
  Underscores in numeric literals: the scan that \<open>float()\<close> and \<open>int()\<close> run over
  their argument. An underscore must follow a digit and be followed by a digit; the
  scan returns the text without underscores, or \<open>None\<close> for ValueError.
\<close>

fun drop_underscores :: "char \<Rightarrow> string \<Rightarrow> string option" where
  "drop_underscores prev [] = (if prev = CHR ''_'' then None else Some [])"
| "drop_underscores prev (c # cs) =
     (if c = CHR ''_'' then
        (if is_digit prev then drop_underscores c cs else None)
      else if prev = CHR ''_'' \<and> \<not> is_digit c then None
      else map_option (Cons c) (drop_underscores c cs))"

definition digits_val :: "string \<Rightarrow> nat" where
  "digits_val ds = foldl (\<lambda>a d. 10 * a + digit_val d) 0 ds"

text \<open>An optional sign: \<open>(negative, rest)\<close>.\<close>

fun split_sign :: "string \<Rightarrow> bool \<times> string" where
  "split_sign [] = (False, [])"
| "split_sign (c # cs) =
     (if c = CHR ''-'' then (True, cs)
      else if c = CHR ''+'' then (False, cs)
      else (False, c # cs))"

text \<open>
  \<open>int(s)\<close> for a string argument, base 10: surrounding whitespace, an optional sign,
  then decimal digits with single underscores between them. \<open>None\<close> is ValueError.
  (The limit on the number of digits of recent interpreters is not modelled.)
\<close>

definition pyint :: "string \<Rightarrow> int option" where
  "pyint s =
     (case split_sign (num_strip s) of (neg, body) \<Rightarrow>
        (case drop_underscores (CHR 0x00) body of
           None \<Rightarrow> None
         | Some ds \<Rightarrow>
             if ds = [] \<or> \<not> list_all is_digit ds then None
             else Some (if neg then - int (digits_val ds) else int (digits_val ds))))"

text \<open>\<open>str(n)\<close> for an integer.\<close>

fun nat_digits :: "nat \<Rightarrow> string" where
  "nat_digits n =
     (if n < 10 then [char_of (48 + n)]
      else nat_digits (n div 10) @ [char_of (48 + n mod 10)])"

definition pystr_int :: "int \<Rightarrow> string" where
  "pystr_int i = (if i < 0 then CHR ''-'' # nat_digits (nat (- i)) else nat_digits (nat i))"

text \<open>
  A Python float is represented by the exact decimal value it was parsed from when
  that value rounds to a finite double, and by an infinity or NaN otherwise. A decimal
  rounds to an infinity exactly when its magnitude reaches \<open>2^1024 - 2^970\<close>, half
  way between the largest double and \<open>2^1024\<close>.
\<close>

datatype pyfloat = Finite rat | PosInf | NegInf | NaN

definition lower :: "char \<Rightarrow> char" where
  "lower c = (let n = (of_char c :: nat) in if 65 \<le> n \<and> n \<le> 90 then char_of (n + 32) else c)"

definition span_digits :: "string \<Rightarrow> string \<times> string" where
  "span_digits s = (takeWhile is_digit s, dropWhile is_digit s)"

definition scale10 :: "nat \<Rightarrow> int \<Rightarrow> rat" where
  "scale10 m e = (if 0 \<le> e then of_nat m * 10 ^ nat e else of_nat m / 10 ^ nat (- e))"

definition round_double :: "bool \<Rightarrow> rat \<Rightarrow> pyfloat" where
  "round_double neg v =
     (if 2 ^ 1024 - 2 ^ 970 \<le> v then (if neg then NegInf else PosInf)
      else Finite (if neg then - v else v))"

text \<open>The exponent part after the mantissa: empty, or \<open>e\<close>/\<open>E\<close>, an optional sign, digits.\<close>

definition parse_exponent :: "string \<Rightarrow> int option" where
  "parse_exponent s =
     (case s of
        [] \<Rightarrow> Some 0
      | c # cs \<Rightarrow>
          if c = CHR ''e'' \<or> c = CHR ''E'' then
            (case split_sign cs of (eneg, r) \<Rightarrow>
               if r = [] \<or> \<not> list_all is_digit r then None
               else Some (if eneg then - int (digits_val r) else int (digits_val r)))
          else None)"

definition parse_decimal :: "bool \<Rightarrow> string \<Rightarrow> pyfloat option" where
  "parse_decimal neg body =
     (case span_digits body of (ip, r1) \<Rightarrow>
        (case (case r1 of
                 [] \<Rightarrow> ([], r1)
               | c # cs \<Rightarrow> if c = CHR ''.'' then span_digits cs else ([], r1))
         of (fp, r2) \<Rightarrow>
           if ip = [] \<and> fp = [] then None
           else (case parse_exponent r2 of
                   None \<Rightarrow> None
                 | Some e \<Rightarrow>
                     Some (round_double neg
                             (scale10 (digits_val (ip @ fp)) (e - int (length fp)))))))"

text \<open>\<open>float(s)\<close> for a string argument; \<open>None\<close> is ValueError.\<close>

definition pyfloat_of :: "string \<Rightarrow> pyfloat option" where
  "pyfloat_of s =
     (case drop_underscores (CHR 0x00) (num_strip s) of
        None \<Rightarrow> None
      | Some u \<Rightarrow>
          (case split_sign u of (neg, body) \<Rightarrow>
             let w = map lower body in
             if w = ''inf'' \<or> w = ''infinity'' then Some (if neg then NegInf else PosInf)
             else if w = ''nan'' then Some NaN
             else parse_decimal neg body))"

text \<open>\<open>int(x)\<close> for a float: truncation, OverflowError on an infinity, ValueError on NaN.\<close>

definition pyint_of_float :: "pyfloat \<Rightarrow> pyerror + int" where
  "pyint_of_float x =
     (case x of
        Finite r \<Rightarrow> Inr (if 0 \<le> r then \<lfloor>r\<rfloor> else \<lceil>r\<rceil>)
      | PosInf \<Rightarrow> Inl OverflowError
      | NegInf \<Rightarrow> Inl OverflowError
      | NaN \<Rightarrow> Inl ValueError)"

section \<open>Control State Registry: \<open>buttonStates\<close> and \<open>handleButtonData\<close>\<close>

text \<open>
  The global dictionary \<open>buttonStates\<close> has the five keys pump, aerator, lights, plug4
  and stop from its creation on, and no key is ever added or removed: it is a record of
  five strings.
\<close>

record buttonStates =
  pump :: string
  aerator :: string
  lights :: string
  plug4 :: string
  stop :: string

text \<open>
  \<open>handleButtonData(data)\<close>. The result is the exception raised (if any), the
  dictionary after the call, and the lines printed. An index past the end of \<open>data\<close>
  raises IndexError after the updates already made.
\<close>

definition handleButtonData ::
  "string list \<Rightarrow> buttonStates \<Rightarrow> pyerror option \<times> buttonStates \<times> string list" where
  "handleButtonData data bs =
     (if data = [] then (None, bs, [])
      else
        (case nth_opt data 4 of
           None \<Rightarrow> (Some IndexError, bs, [])
         | Some d4 \<Rightarrow>
            (case (if pump bs \<noteq> d4
                   then (bs\<lparr>pump := d4\<rparr>,
                         [if d4 = ''1'' then ''Pump turned on'' else ''Pump turned off''])
                   else (bs, [])) of (bs1, out1) \<Rightarrow>
            (case nth_opt data 5 of
               None \<Rightarrow> (Some IndexError, bs1, out1)
             | Some d5 \<Rightarrow>
                (case (if aerator bs1 \<noteq> d5
                       then (bs1\<lparr>aerator := d5\<rparr>,
                             out1 @ [if d5 = ''1'' then ''Aerator turned on''
                                     else ''Aerator turned off''])
                       else (bs1, out1)) of (bs2, out2) \<Rightarrow>
                (case nth_opt data 6 of
                   None \<Rightarrow> (Some IndexError, bs2, out2)
                 | Some d6 \<Rightarrow>
                    (case (if lights bs2 \<noteq> d6
                           then (bs2\<lparr>lights := d6\<rparr>,
                                 out2 @ [if d6 = ''1'' then ''Lights turned on''
                                         else ''Lights turned off''])
                           else (bs2, out2)) of (bs3, out3) \<Rightarrow>
                    (case nth_opt data 7 of
                       None \<Rightarrow> (Some IndexError, bs3, out3)
                     | Some d7 \<Rightarrow>
                        (if plug4 bs3 \<noteq> d7
                         then (None, bs3\<lparr>plug4 := d7\<rparr>,
                               out3 @ [if d7 = ''1'' then ''Plug 4 turned on''
                                       else ''Plug 4 turned off''])
                         else (None, bs3, out3))))))))))"

section \<open>Window Cache: \<open>plotData\<close> and \<open>handlePlotData\<close>\<close>

text \<open>
  \<open>plotData\<close> is a list of four columns. A timestamp column entry is the
  \<open>datetime\<close> made by \<open>datetime.fromtimestamp(int(data[0]))\<close>; it is represented by
  the epoch second it was made from, which \<open>int(d.timestamp())\<close> gives back. The range
  of \<open>datetime\<close> is not modelled.
\<close>

record plotData =
  timestamps :: "int list"
  temperature :: "pyfloat list"
  ph :: "pyfloat list"
  dissolved_oxygen :: "pyfloat list"

text \<open>
  \<open>currentValues\<close>: three entries, the integer 0 at start (written \<open>''0''\<close> here) and
  the strings \<open>data[1]\<close>, \<open>data[2]\<close>, \<open>data[3]\<close> afterwards.
\<close>

record currentValues =
  cur_temp :: string
  cur_ph :: string
  cur_dissolved_oxygen :: string

text \<open>
  The trimming loop at the end of \<open>handlePlotData\<close>:
  \<open>for i in range(len(plotData[0]))\<close>, popping the head of every column while
  \<open>int(time.time()) - int(plotData[0][0].timestamp()) > MAX_DATA_TIME * 60\<close> and
  leaving the loop otherwise. The first argument counts the iterations left, \<open>ret\<close>
  is \<open>MAX_DATA_TIME * 60\<close> and \<open>now\<close> the reading of the clock (one reading for
  the whole call). \<open>pop(0)\<close> on an empty column raises IndexError.
\<close>

fun trim_loop :: "nat \<Rightarrow> int \<Rightarrow> int \<Rightarrow> plotData \<Rightarrow> pyerror option \<times> plotData" where
  "trim_loop 0 ret now pd = (None, pd)"
| "trim_loop (Suc k) ret now pd =
     (case timestamps pd of
        [] \<Rightarrow> (Some IndexError, pd)
      | t # ts \<Rightarrow>
          if now - t > ret then
            (case temperature pd of
               [] \<Rightarrow> (Some IndexError, pd\<lparr>timestamps := ts\<rparr>)
             | _ # tm \<Rightarrow>
                (case ph pd of
                   [] \<Rightarrow> (Some IndexError, pd\<lparr>timestamps := ts, temperature := tm\<rparr>)
                 | _ # hs \<Rightarrow>
                    (case dissolved_oxygen pd of
                       [] \<Rightarrow> (Some IndexError,
                              pd\<lparr>timestamps := ts, temperature := tm, ph := hs\<rparr>)
                     | _ # os \<Rightarrow>
                         trim_loop k ret now
                           \<lparr>timestamps = ts, temperature = tm, ph = hs,
                            dissolved_oxygen = os\<rparr>)))
          else (None, pd))"

text \<open>
  The appends inside \<open>try\<close>: the timestamp first, then the three sensor values; a
  value that \<open>float()\<close> rejects ends the appends where they are (\<open>except: return\<close>),
  and the result says so with \<open>False\<close>. An index past the end of \<open>data\<close> is caught by
  the same \<open>except\<close>.
\<close>

definition float_at :: "string list \<Rightarrow> nat \<Rightarrow> pyfloat option" where
  "float_at data i = (case nth_opt data i of None \<Rightarrow> None | Some s \<Rightarrow> pyfloat_of s)"

definition append_row :: "int \<Rightarrow> string list \<Rightarrow> plotData \<Rightarrow> bool \<times> plotData" where
  "append_row t data pd =
     (let pd0 = pd\<lparr>timestamps := timestamps pd @ [t]\<rparr> in
      case float_at data 1 of
        None \<Rightarrow> (False, pd0)
      | Some a \<Rightarrow>
         (let pd1 = pd0\<lparr>temperature := temperature pd0 @ [a]\<rparr> in
          case float_at data 2 of
            None \<Rightarrow> (False, pd1)
          | Some b \<Rightarrow>
             (let pd2 = pd1\<lparr>ph := ph pd1 @ [b]\<rparr> in
              case float_at data 3 of
                None \<Rightarrow> (False, pd2)
              | Some c \<Rightarrow> (True, pd2\<lparr>dissolved_oxygen := dissolved_oxygen pd2 @ [c]\<rparr>))))"

text \<open>
  \<open>handlePlotData(data)\<close> with \<open>mdt = MAX_DATA_TIME\<close> (minutes) and the clock reading
  \<open>now\<close>. The result is the exception raised (if any) and the two globals after the
  call.
\<close>

definition handlePlotData ::
  "int \<Rightarrow> int \<Rightarrow> string list \<Rightarrow> plotData \<times> currentValues
     \<Rightarrow> pyerror option \<times> plotData \<times> currentValues" where
  "handlePlotData mdt now data st =
     (case st of (pd, cv) \<Rightarrow>
       (case data of
          [] \<Rightarrow>
            (case trim_loop (length (timestamps pd)) (mdt * 60) now pd of
               (e, pd') \<Rightarrow> (e, pd', cv))
        | d0 # _ \<Rightarrow>
           (case pyint d0 of
              None \<Rightarrow> (Some ValueError, pd, cv)
            | Some t \<Rightarrow>
               (case nth_opt data 1 of
                  None \<Rightarrow> (Some IndexError, pd, cv)
                | Some d1 \<Rightarrow>
                   (case nth_opt data 2 of
                      None \<Rightarrow> (Some IndexError, pd, cv\<lparr>cur_temp := d1\<rparr>)
                    | Some d2 \<Rightarrow>
                       (case nth_opt data 3 of
                          None \<Rightarrow> (Some IndexError, pd, cv\<lparr>cur_temp := d1, cur_ph := d2\<rparr>)
                        | Some d3 \<Rightarrow>
                           (let cv' = \<lparr>cur_temp = d1, cur_ph = d2, cur_dissolved_oxygen = d3\<rparr>
                            in case append_row t data pd of
                                 (False, pd1) \<Rightarrow> (None, pd1, cv')
                               | (True, pd1) \<Rightarrow>
                                  (case trim_loop (length (timestamps pd1)) (mdt * 60) now pd1 of
                                     (e, pd') \<Rightarrow> (e, pd', cv')))))))))"

section \<open>Line Protocol Codec: \<open>parseSerialData\<close>\<close>

text \<open>
  The serial port is the list of what the successive polls of \<open>parseSerialData\<close> find:
  nothing waiting (\<open>in_waiting = 0\<close>), a failure of the port (the device was
  unplugged), a line whose bytes are not UTF-8, or a line with its decoded text. The
  empty list is a port on which nothing more arrives.
\<close>

datatype rx = Idle | Port_failure | Undecodable | Text string

text \<open>What \<open>parseSerialData\<close> prints before it retries.\<close>

datatype printed = Error_decoding | Reset_button_pressed | Invalid_data_format "string list"

text \<open>\<open>s.startswith(("0", "1", "2", "3", "4", "5", "6", "7", "8", "9"))\<close>\<close>

fun starts_with_digit :: "string \<Rightarrow> bool" where
  "starts_with_digit [] = False"
| "starts_with_digit (c # cs) = is_digit c"

text \<open>
  \<open>parseSerialData()\<close>: the value returned (\<open>Inr None\<close> when the function falls off
  its end) or the exception raised, the lines printed, and the polls left. Every
  \<open>return parseSerialData()\<close> of the source is the recursive call on the rest of the
  polls. (The interpreter's recursion limit is not modelled.)
\<close>

fun parseSerialData :: "rx list \<Rightarrow> (pyerror + string list option) \<times> printed list \<times> rx list" where
  "parseSerialData [] = (Inr None, [], [])"
| "parseSerialData (Idle # rest) = (Inr None, [], rest)"
| "parseSerialData (Port_failure # rest) = (Inl SerialException, [], rest)"
| "parseSerialData (Undecodable # rest) =
     (case parseSerialData rest of (r, out, s) \<Rightarrow> (r, Error_decoding # out, s))"
| "parseSerialData (Text t # rest) =
     (let data = split_comma (remove_spaces (rstrip t)) in
      case data of
        [] \<Rightarrow> (Inl IndexError, [], rest)
      | d0 # _ \<Rightarrow>
          if d0 = ''ResetButtonPressed'' then
            (case parseSerialData rest of (r, out, s) \<Rightarrow> (r, Reset_button_pressed # out, s))
          else if starts_with_digit d0 then
            (if length data \<noteq> 8 then
               (case parseSerialData rest of (r, out, s) \<Rightarrow>
                  (r, Invalid_data_format data # out, s))
             else (Inr (Some data), [], rest))
          else (Inr None, [], rest))"

section \<open>Durable Log Store: \<open>validateFileData\<close> and \<open>cleanFileData\<close>\<close>

text \<open>
  The loop \<open>for i in range(1, 8)\<close> of \<open>validateFileData\<close>: \<open>data[i] = float(data[i])\<close>,
  then \<open>data[i] = int(data[i])\<close> on the float just stored, each inside a
  \<open>try\<close> whose \<open>except\<close> returns \<open>False\<close>. The stores into \<open>data\<close> touch index
  \<open>i\<close> only, which no later iteration reads, and the caller drops \<open>data\<close>; the
  messages printed on rejection are left out.
\<close>

fun validate_loop :: "nat list \<Rightarrow> string list \<Rightarrow> bool" where
  "validate_loop [] data = True"
| "validate_loop (i # is) data =
     (case nth_opt data i of
        None \<Rightarrow> False
      | Some s \<Rightarrow>
         (case pyfloat_of s of
            None \<Rightarrow> False
          | Some x \<Rightarrow>
             (case pyint_of_float x of
                Inl e \<Rightarrow> False
              | Inr n \<Rightarrow> validate_loop is data)))"

definition validateFileData :: "string list \<Rightarrow> bool" where
  "validateFileData data = (if length data \<noteq> 9 then False else validate_loop [1..<8] data)"

text \<open>
  The two files next to the program, \<open>data.csv\<close> and \<open>temp.csv\<close>: the text of each,
  or \<open>None\<close> when the file does not exist.
\<close>

record files =
  data_csv :: "string option"
  temp_csv :: "string option"

text \<open>
  Reading a file opened in text mode translates \<open>\\r\\n\<close> and a lone \<open>\\r\<close> into
  \<open>\\n\<close>; iterating over it yields the lines, each with its \<open>\\n\<close>, the last one
  without when the text does not end in one.
\<close>

fun universal_newlines :: "string \<Rightarrow> string" where
  "universal_newlines [] = []"
| "universal_newlines [c] = (if c = CHR 0x0D then [CHR 0x0A] else [c])"
| "universal_newlines (c # d # cs) =
     (if c = CHR 0x0D then
        (if d = CHR 0x0A then CHR 0x0A # universal_newlines cs
         else CHR 0x0A # universal_newlines (d # cs))
      else c # universal_newlines (d # cs))"

fun file_lines :: "string \<Rightarrow> string list" where
  "file_lines [] = []"
| "file_lines (c # cs) =
     (if c = CHR 0x0A then [CHR 0x0A] # file_lines cs
      else (case file_lines cs of
              [] \<Rightarrow> [[c]]
            | l # ls \<Rightarrow> (c # l) # ls))"

text \<open>
  The loop of \<open>cleanFileData\<close> over the lines of \<open>data.csv\<close>, with the text written
  to \<open>temp.csv\<close> so far; \<open>ret\<close> is \<open>MAX_DATA_TIME * 60\<close> and \<open>now\<close> is
  \<open>int(time.time())\<close> (one reading for the whole call). \<open>int(data[0])\<close> is evaluated
  before \<open>validateFileData(data)\<close> and raises ValueError on a first field that is no
  integer; the exception leaves the loop with \<open>temp.csv\<close> as written so far.
\<close>

fun clean_loop :: "int \<Rightarrow> int \<Rightarrow> string list \<Rightarrow> string \<Rightarrow> (pyerror \<times> string) + string" where
  "clean_loop ret now [] out = Inr out"
| "clean_loop ret now (line # ls) out =
     (let l = rstrip line; data = split_comma l in
      case data of
        [] \<Rightarrow> Inl (IndexError, out)
      | d0 # _ \<Rightarrow>
         (case pyint d0 of
            None \<Rightarrow> Inl (ValueError, out)
          | Some t \<Rightarrow>
              if now - t < ret \<and> validateFileData data
              then clean_loop ret now ls (out @ l @ [CHR 0x0A])
              else clean_loop ret now ls out))"

text \<open>\<open>os.replace(temp.csv, data.csv)\<close>\<close>

definition os_replace :: "files \<Rightarrow> files" where
  "os_replace fs = fs\<lparr>data_csv := temp_csv fs, temp_csv := None\<rparr>"

text \<open>
  \<open>cleanFileData()\<close> with \<open>mdt = MAX_DATA_TIME\<close>: the files after a normal return
  (\<open>Inr\<close>), or the exception raised and the files it leaves (\<open>Inl\<close>).
\<close>

definition cleanFileData :: "int \<Rightarrow> int \<Rightarrow> files \<Rightarrow> (pyerror \<times> files) + files" where
  "cleanFileData mdt now fs =
     (case data_csv fs of
        None \<Rightarrow> Inl (FileNotFoundError, fs)
      | Some txt \<Rightarrow>
         (case clean_loop (mdt * 60) now (file_lines (universal_newlines txt)) [] of
            Inl (e, out) \<Rightarrow> Inl (e, fs\<lparr>temp_csv := Some out\<rparr>)
          | Inr out \<Rightarrow> Inr (os_replace (fs\<lparr>temp_csv := Some out\<rparr>))))"

text \<open>The files a call leaves, whether it returned or raised.\<close>

fun files_after :: "(pyerror \<times> files) + files \<Rightarrow> files" where
  "files_after (Inl (e, fs)) = fs"
| "files_after (Inr fs) = fs"

section \<open>Notions used to state the properties\<close>

text \<open>A transition notification for the actuator \<open>name\<close> is among the printed lines.\<close>

definition notified :: "string \<Rightarrow> string list \<Rightarrow> bool" where
  "notified name out = (name @ '' turned on'' \<in> set out \<or> name @ '' turned off'' \<in> set out)"

text \<open>The four columns of \<open>plotData\<close> have one entry per record.\<close>

definition aligned :: "plotData \<Rightarrow> bool" where
  "aligned pd = (length (temperature pd) = length (timestamps pd)
               \<and> length (ph pd) = length (timestamps pd)
               \<and> length (dissolved_oxygen pd) = length (timestamps pd))"

text \<open>\<open>plotData\<close> without its first \<open>k\<close> records.\<close>

definition drop_rows :: "nat \<Rightarrow> plotData \<Rightarrow> plotData" where
  "drop_rows k pd = \<lparr>timestamps = drop k (timestamps pd), temperature = drop k (temperature pd),
                     ph = drop k (ph pd), dissolved_oxygen = drop k (dissolved_oxygen pd)\<rparr>"

text \<open>
  The timestamp of a stripped log line, as \<open>cleanFileData\<close> reads it:
  \<open>int(line.split(",")[0])\<close>.
\<close>

definition line_timestamp :: "string \<Rightarrow> int option" where
  "line_timestamp l = (case split_comma l of [] \<Rightarrow> None | d0 # _ \<Rightarrow> pyint d0)"

text \<open>The condition under which \<open>cleanFileData\<close> keeps a stripped line.\<close>

definition kept_line :: "int \<Rightarrow> int \<Rightarrow> string \<Rightarrow> bool" where
  "kept_line ret now l =
     (case line_timestamp l of
        None \<Rightarrow> False
      | Some t \<Rightarrow> now - t < ret \<and> validateFileData (split_comma l))"

text \<open>A field is the literal of a float with a finite value.\<close>

definition finite_literal :: "string \<Rightarrow> bool" where
  "finite_literal s = (case pyfloat_of s of Some (Finite r) \<Rightarrow> True | _ \<Rightarrow> False)"

text \<open>
  The text the spec asks of compaction: the stripped lines of the log that are kept, in
  their order, each followed by a newline.
\<close>

definition compacted :: "int \<Rightarrow> int \<Rightarrow> string \<Rightarrow> string" where
  "compacted ret now txt =
     concat (map (\<lambda>l. l @ [CHR 0x0A])
               (filter (kept_line ret now) (map rstrip (file_lines (universal_newlines txt)))))"

section \<open>Notions used to state the cache invariant\<close>

text \<open>A record of the cache: its timestamp and its three sensor values.\<close>

type_synonym row = "int \<times> pyfloat \<times> pyfloat \<times> pyfloat"

text \<open>The records of \<open>plotData\<close>, read across its four columns.\<close>

definition rows :: "plotData \<Rightarrow> row list" where
  "rows pd = zip (timestamps pd) (zip (temperature pd) (zip (ph pd) (dissolved_oxygen pd)))"

text \<open>
  The record \<open>handlePlotData(data)\<close> appends for \<open>data\<close>:
  \<open>int(data[0])\<close>, \<open>float(data[1])\<close>, \<open>float(data[2])\<close>, \<open>float(data[3])\<close>;
  \<open>None\<close> when one of them raises.
\<close>

definition row_of :: "string list \<Rightarrow> row option" where
  "row_of data =
     (case data of
        [] \<Rightarrow> None
      | d0 # _ \<Rightarrow>
         (case pyint d0 of
            None \<Rightarrow> None
          | Some t \<Rightarrow>
             (case float_at data 1 of
                None \<Rightarrow> None
              | Some a \<Rightarrow>
                 (case float_at data 2 of
                    None \<Rightarrow> None
                  | Some b \<Rightarrow>
                     (case float_at data 3 of
                        None \<Rightarrow> None
                      | Some c \<Rightarrow> Some (t, a, b, c))))))"

text \<open>
  A sequence of calls \<open>handlePlotData(data)\<close>, each with the clock reading at which
  it runs; an exception ends the sequence, as it ends the thread that makes the calls.
\<close>

fun handlePlotData_calls ::
  "int \<Rightarrow> (int \<times> string list) list \<Rightarrow> plotData \<times> currentValues
     \<Rightarrow> pyerror option \<times> plotData \<times> currentValues" where
  "handlePlotData_calls mdt [] st = (None, st)"
| "handlePlotData_calls mdt ((now, data) # calls) st =
     (case handlePlotData mdt now data st of
        (Some e, st') \<Rightarrow> (Some e, st')
      | (None, st') \<Rightarrow> handlePlotData_calls mdt calls st')"

text \<open>The records a sequence of calls appends, in order.\<close>

definition history :: "(int \<times> string list) list \<Rightarrow> row list" where
  "history calls = List.map_filter (\<lambda>(now, data). row_of data) calls"

text \<open>\<open>plotData\<close> with one record more at its tail.\<close>

definition push_row :: "row \<Rightarrow> plotData \<Rightarrow> plotData" where
  "push_row r pd =
     (case r of (t, a, b, c) \<Rightarrow>
        \<lparr>timestamps = timestamps pd @ [t], temperature = temperature pd @ [a],
         ph = ph pd @ [b], dissolved_oxygen = dissolved_oxygen pd @ [c]\<rparr>)"

text \<open>
  The state of the cache after a call at \<open>now\<close>: columns in step, a contiguous
  suffix of the history, ascending, and nothing older than \<open>ret\<close> seconds.
\<close>

definition window_inv :: "int \<Rightarrow> int \<Rightarrow> row list \<Rightarrow> plotData \<Rightarrow> bool" where
  "window_inv ret now hist pd =
     (aligned pd \<and> (\<exists>k. rows pd = drop k hist) \<and> sorted (timestamps pd)
      \<and> (\<forall>t\<in>set (timestamps pd). now - t \<le> ret))"

section \<open>Basic facts about the text primitives\<close>

lemma nth_opt_eq: "nth_opt xs n = (if n < length xs then Some (xs ! n) else None)"
  by (induction xs n rule: nth_opt.induct) auto

lemmas py_eval = pyfloat_of_def num_strip_def is_num_space_def is_digit_def parse_decimal_def
  span_digits_def parse_exponent_def round_double_def scale10_def digits_val_def digit_val_def
  lower_def pyint_def pyint_of_float_def rstrip_def is_space_def remove_spaces_def

lemma upt_1_8: "[Suc 0..<8] = [Suc 0, 2, 3, 4, 5, 6, 7]"
  by (simp add: upt_conv_Cons)

lemma ball_1_7:
  "(\<forall>i\<in>{Suc 0..7}. P i) \<longleftrightarrow> P (Suc 0) \<and> P 2 \<and> P 3 \<and> P 4 \<and> P 5 \<and> P 6 \<and> P 7"
proof -
  have "{Suc 0..7} = {Suc 0, 2, 3, 4, 5, 6, 7}" by auto
  then show ?thesis by simp
qed

lemma split_comma_nonempty: "split_comma s \<noteq> []"
  by (induction s) (auto split: list.splits)

lemma length_split_comma: "length (split_comma s) = Suc (length (filter (\<lambda>c. c = CHR '','') s))"
  by (induction s) (auto split: list.splits simp: split_comma_nonempty)

lemma comma_not_space: "\<not> is_space (CHR '','')"
  by (simp add: is_space_def)

lemma rstrip_decomp: "s = rstrip s @ rev (takeWhile is_space (rev s))"
proof -
  have "rev (takeWhile is_space (rev s) @ dropWhile is_space (rev s)) = s"
    by (simp only: takeWhile_dropWhile_id rev_rev_ident)
  then show ?thesis by (simp only: rstrip_def rev_append)
qed

lemma commas_rstrip: "filter (\<lambda>c. c = CHR '','') (rstrip s) = filter (\<lambda>c. c = CHR '','') s"
proof -
  have "filter (\<lambda>c. c = CHR '','') (rev (takeWhile is_space (rev s))) = []"
    by (auto simp: filter_empty_conv comma_not_space dest: set_takeWhileD)
  then have "filter (\<lambda>c. c = CHR '','') (rstrip s @ rev (takeWhile is_space (rev s)))
             = filter (\<lambda>c. c = CHR '','') (rstrip s)"
    by simp
  then show ?thesis using rstrip_decomp[of s] by simp
qed

lemma commas_remove_spaces:
  "filter (\<lambda>c. c = CHR '','') (remove_spaces s) = filter (\<lambda>c. c = CHR '','') s"
  by (induction s) (auto simp: remove_spaces_def)

lemma length_split_normalised:
  "length (split_comma (remove_spaces (rstrip t))) = length (split_comma t)"
  by (simp add: length_split_comma commas_remove_spaces commas_rstrip)

lemma rstrip_Cons: "\<not> is_space c \<Longrightarrow> rstrip (c # cs) = c # rstrip cs"
  by (simp add: rstrip_def dropWhile_append)

lemma digit_not_space: "is_digit c \<Longrightarrow> \<not> is_space c"
  by (auto simp: is_digit_def is_space_def Let_def)

lemma digit_not_comma: "is_digit c \<Longrightarrow> c \<noteq> CHR '',''"
  by (auto simp: is_digit_def)

lemma digit_not_blank: "is_digit c \<Longrightarrow> c \<noteq> CHR '' ''"
  by (auto simp: is_digit_def)

lemma starts_with_digit_hd_split:
  "starts_with_digit (hd (split_comma s)) \<longleftrightarrow> (\<exists>c cs. s = c # cs \<and> is_digit c)"
  by (cases s) (auto split: list.splits simp: is_digit_def split_comma_nonempty)

lemma digit_leading_normalised:
  assumes "starts_with_digit (hd (split_comma t))"
  shows "starts_with_digit (hd (split_comma (remove_spaces (rstrip t))))"
proof -
  from assms obtain c cs where t: "t = c # cs" and d: "is_digit c"
    by (auto simp: starts_with_digit_hd_split)
  have "remove_spaces (rstrip t) = c # remove_spaces (rstrip cs)"
    using d by (simp add: t rstrip_Cons digit_not_space remove_spaces_def digit_not_blank)
  with d show ?thesis by (simp only: starts_with_digit_hd_split) blast
qed

lemma digit_leading_not_reset:
  "starts_with_digit d0 \<Longrightarrow> d0 \<noteq> ''ResetButtonPressed''"
  by (auto simp: is_digit_def)


section \<open>Control State Registry\<close>

text \<open>
  C9. For a decoded record (the timestamp and the eight fields of a frame, so at least
  eight entries) and any prior \<open>buttonStates\<close>, \<open>handleButtonData\<close> raises nothing,
  sets pump, aerator, lights and plug4 to \<open>data[4]\<close>, \<open>data[5]\<close>, \<open>data[6]\<close>,
  \<open>data[7]\<close>, and prints a transition line for an actuator exactly when the incoming
  value differs from the value held before.
\<close>

theorem handleButtonData_edge_triggered:
  assumes "8 \<le> length data"
  shows "case handleButtonData data bs of (e, bs', out) \<Rightarrow>
           e = None
         \<and> bs' = bs\<lparr>pump := data ! 4, aerator := data ! 5, lights := data ! 6, plug4 := data ! 7\<rparr>
         \<and> (notified ''Pump'' out \<longleftrightarrow> pump bs \<noteq> data ! 4)
         \<and> (notified ''Aerator'' out \<longleftrightarrow> aerator bs \<noteq> data ! 5)
         \<and> (notified ''Lights'' out \<longleftrightarrow> lights bs \<noteq> data ! 6)
         \<and> (notified ''Plug 4'' out \<longleftrightarrow> plug4 bs \<noteq> data ! 7)"
proof -
  from assms have ne: "data \<noteq> []" by auto
  from assms have k: "nth_opt data 4 = Some (data ! 4)" "nth_opt data 5 = Some (data ! 5)"
    "nth_opt data 6 = Some (data ! 6)" "nth_opt data 7 = Some (data ! 7)"
    by (simp_all add: nth_opt_eq)
  show ?thesis
    by (simp add: handleButtonData_def ne k notified_def)
qed

text \<open>
  The record received first after start, with the pump on: only the pump changes and
  only the pump is announced.
\<close>

theorem handleButtonData_edge_triggered_witness:
  "case handleButtonData [''1700000000'', ''23.5'', ''7.1'', ''6.8'', ''1'', ''0'', ''0'', ''0'', ''0'']
          \<lparr>pump = ''0'', aerator = ''0'', lights = ''0'', plug4 = ''0'', stop = ''0''\<rparr>
   of (e, bs', out) \<Rightarrow>
        e = None
      \<and> bs' = \<lparr>pump = ''1'', aerator = ''0'', lights = ''0'', plug4 = ''0'', stop = ''0''\<rparr>
      \<and> notified ''Pump'' out \<and> \<not> notified ''Aerator'' out
      \<and> \<not> notified ''Lights'' out \<and> \<not> notified ''Plug 4'' out"
  using handleButtonData_edge_triggered
    [of "[''1700000000'', ''23.5'', ''7.1'', ''6.8'', ''1'', ''0'', ''0'', ''0'', ''0'']"
        "\<lparr>pump = ''0'', aerator = ''0'', lights = ''0'', plug4 = ''0'', stop = ''0''\<rparr>"]
  by (simp split: prod.splits)

text \<open>
  C10. Whatever \<open>data\<close> is (also one too short, on which the call raises IndexError)
  and whatever the prior \<open>buttonStates\<close>, \<open>handleButtonData\<close> leaves the entry
  \<open>stop\<close> as it was.
\<close>

theorem handleButtonData_stop_unchanged:
  "stop (fst (snd (handleButtonData data bs))) = stop bs"
  by (auto simp: handleButtonData_def split: option.splits prod.splits if_splits)

section \<open>Window Cache: trimming\<close>

lemma trim_loop_aligned:
  "aligned pd \<Longrightarrow> length (timestamps pd) = n \<Longrightarrow>
   trim_loop n ret now pd
     = (None, drop_rows (length (takeWhile (\<lambda>t. ret < now - t) (timestamps pd))) pd)"
proof (induction n arbitrary: pd)
  case 0
  then show ?case by (simp add: drop_rows_def)
next
  case (Suc n)
  show ?case
  proof (cases "timestamps pd")
    case Nil
    with Suc.prems show ?thesis by (simp add: drop_rows_def aligned_def)
  next
    case (Cons t ts)
    with Suc.prems obtain a tm b hs c os where cols:
      "temperature pd = a # tm" "ph pd = b # hs" "dissolved_oxygen pd = c # os"
      by (auto simp: aligned_def length_Suc_conv)
    let ?pd' = "\<lparr>timestamps = ts, temperature = tm, ph = hs, dissolved_oxygen = os\<rparr>"
    from Suc.prems Cons cols have al: "aligned ?pd'" "length (timestamps ?pd') = n"
      by (simp_all add: aligned_def)
    show ?thesis
    proof (cases "ret < now - t")
      case True
      with Cons cols Suc.IH[OF al] show ?thesis by (simp add: drop_rows_def)
    next
      case False
      with Cons show ?thesis by (simp add: drop_rows_def)
    qed
  qed
qed

text \<open>
  C4, as the code has it. For every \<open>plotData\<close> whose columns have one entry per
  record and every clock reading \<open>now\<close>, the trimming loop of \<open>handlePlotData\<close>
  removes records from the head while \<open>now - head.timestamp > retentionSeconds\<close>
  (strictly greater; a record aged exactly \<open>retentionSeconds\<close> stays) and stops at the
  first record that is not older than that; it raises nothing. The same holds of a call
  \<open>handlePlotData([])\<close>, which only trims, with \<open>retentionSeconds = MAX_DATA_TIME * 60\<close>.
\<close>

theorem trim_loop_strict:
  assumes "aligned pd"
  shows "trim_loop (length (timestamps pd)) ret now pd
           = (None, drop_rows (length (takeWhile (\<lambda>t. ret < now - t) (timestamps pd))) pd)
       \<and> timestamps (snd (trim_loop (length (timestamps pd)) ret now pd))
           = dropWhile (\<lambda>t. ret < now - t) (timestamps pd)
       \<and> handlePlotData mdt now [] (pd, cv)
           = (None, drop_rows (length (takeWhile (\<lambda>t. mdt * 60 < now - t) (timestamps pd))) pd, cv)"
  using assms by (simp add: trim_loop_aligned handlePlotData_def drop_rows_def dropWhile_eq_drop)

text \<open>
  Scenario A: records at t = 0, 60, 130, \<open>MAX_DATA_TIME = 2\<close> (120 seconds), trimmed at
  \<open>now = 130\<close>: the records at 60 and 130 remain.
\<close>

theorem trim_loop_strict_witness:
  "handlePlotData 2 130 []
     (\<lparr>timestamps = [0, 60, 130], temperature = [Finite 70, Finite 71, Finite 72],
       ph = [Finite 7, Finite 7, Finite 7], dissolved_oxygen = [Finite 6, Finite 6, Finite 6]\<rparr>,
      \<lparr>cur_temp = ''72'', cur_ph = ''7'', cur_dissolved_oxygen = ''6''\<rparr>)
   = (None, \<lparr>timestamps = [60, 130], temperature = [Finite 71, Finite 72],
       ph = [Finite 7, Finite 7], dissolved_oxygen = [Finite 6, Finite 6]\<rparr>,
      \<lparr>cur_temp = ''72'', cur_ph = ''7'', cur_dissolved_oxygen = ''6''\<rparr>)"
  using trim_loop_strict
    [of "\<lparr>timestamps = [0, 60, 130], temperature = [Finite 70, Finite 71, Finite 72],
       ph = [Finite 7, Finite 7, Finite 7], dissolved_oxygen = [Finite 6, Finite 6, Finite 6]\<rparr>"
       120 130 2
       "\<lparr>cur_temp = ''72'', cur_ph = ''7'', cur_dissolved_oxygen = ''6''\<rparr>"]
  by (simp add: aligned_def drop_rows_def)

text \<open>
  The claim's \<open>>=\<close> fails on the code: a single record at t = 0 with
  \<open>retentionSeconds = 120\<close>, trimmed at \<open>now = 120\<close>, has \<open>now - timestamp >= 120\<close>
  and is kept.
\<close>

theorem trim_loop_boundary_counterexample:
  "(120::int) - 0 \<ge> 120
   \<and> trim_loop 1 120 120
       \<lparr>timestamps = [0], temperature = [Finite 70], ph = [Finite 7], dissolved_oxygen = [Finite 6]\<rparr>
     = (None, \<lparr>timestamps = [0], temperature = [Finite 70], ph = [Finite 7],
               dissolved_oxygen = [Finite 6]\<rparr>)"
  by simp

section \<open>Line Protocol Codec\<close>

text \<open>
  C6. For every received line whose first comma-separated field begins with a digit
  (as received, or after \<open>rstrip()\<close> and the removal of blanks, which is where the
  code looks), \<open>parseSerialData\<close> returns the fields as a data record exactly when
  the line has 8 comma-separated fields; otherwise it prints "Received invalid data
  format" and its result is the one of the retried read, \<open>parseSerialData()\<close> on
  what the port delivers next: no exception comes from the malformed line.
\<close>

theorem parseSerialData_field_count:
  assumes "starts_with_digit (hd (split_comma t))
         \<or> starts_with_digit (hd (split_comma (remove_spaces (rstrip t))))"
  shows "parseSerialData (Text t # rest) =
           (if length (split_comma t) = 8
            then (Inr (Some (split_comma (remove_spaces (rstrip t)))), [], rest)
            else (case parseSerialData rest of (r, out, s) \<Rightarrow>
                    (r, Invalid_data_format (split_comma (remove_spaces (rstrip t))) # out, s)))"
proof -
  let ?data = "split_comma (remove_spaces (rstrip t))"
  from assms have dl: "starts_with_digit (hd ?data)"
    by (auto dest: digit_leading_normalised)
  obtain d0 ds where data: "?data = d0 # ds"
    using split_comma_nonempty[of "remove_spaces (rstrip t)"] by (cases ?data) auto
  with dl have d0: "starts_with_digit d0" "d0 \<noteq> ''ResetButtonPressed''"
    by (auto dest: digit_leading_not_reset)
  have len: "length (split_comma t) = length (d0 # ds)"
    using length_split_normalised[of t] data by simp
  show ?thesis
    using d0 by (simp add: data len del: split_comma.simps)
qed

text \<open>
  Scenario D: the 2-field line \<open>23.5,7.1\<close> is dropped and the 8-field line behind it
  is returned.
\<close>

theorem parseSerialData_field_count_witness:
  "parseSerialData [Text ''23.5,7.1'', Text ''23.5,7.1,6.8,1,0,0,0,0'']
     = (Inr (Some [''23.5'', ''7.1'', ''6.8'', ''1'', ''0'', ''0'', ''0'', ''0'']),
        [Invalid_data_format [''23.5'', ''7.1'']], [])"
  using parseSerialData_field_count[of "''23.5,7.1''" "[Text ''23.5,7.1,6.8,1,0,0,0,0'']"]
        parseSerialData_field_count[of "''23.5,7.1,6.8,1,0,0,0,0''" "[]"]
  by (simp add: py_eval)

text \<open>
  Scenario B as the claim states it fails on the code: the line
  \<open>23.5,7.1,6.8,1,0,0,0\<close> has 7 fields, is reported as invalid data format, and with
  nothing more waiting the call returns \<open>None\<close>, no record.
\<close>

theorem parseSerialData_seven_fields_counterexample:
  "parseSerialData [Text ''23.5,7.1,6.8,1,0,0,0'']
     = (Inr None, [Invalid_data_format [''23.5'', ''7.1'', ''6.8'', ''1'', ''0'', ''0'', ''0'']], [])"
  by (simp add: py_eval)

text \<open>
  C7, as the code has it. The 7-field line \<open>23.5,7.1,6.8,1,0,0,0\<close> is rejected and the
  read retried. With the eighth field of the wire format present, the line
  \<open>23.5,7.1,6.8,1,0,0,0,0\<close> is returned as the list of its eight strings;
  \<open>float()\<close> reads its first three fields as 23.5, 7.1 and 6.8, and
  \<open>handleButtonData\<close>, on the record with its timestamp in front, sets pump to
  \<open>"1"\<close> and leaves aerator, lights and plug4 at \<open>"0"\<close>.
\<close>

theorem parseSerialData_scenario_B_eight_fields:
  "parseSerialData [Text ''23.5,7.1,6.8,1,0,0,0'', Idle]
     = (Inr None, [Invalid_data_format [''23.5'', ''7.1'', ''6.8'', ''1'', ''0'', ''0'', ''0'']], [])
   \<and> parseSerialData [Text ''23.5,7.1,6.8,1,0,0,0,0'']
     = (Inr (Some [''23.5'', ''7.1'', ''6.8'', ''1'', ''0'', ''0'', ''0'', ''0'']), [], [])
   \<and> pyfloat_of ''23.5'' = Some (Finite (47 / 2))
   \<and> pyfloat_of ''7.1'' = Some (Finite (71 / 10))
   \<and> pyfloat_of ''6.8'' = Some (Finite (34 / 5))
   \<and> fst (snd (handleButtonData
         (''1700000000'' # [''23.5'', ''7.1'', ''6.8'', ''1'', ''0'', ''0'', ''0'', ''0''])
         \<lparr>pump = ''0'', aerator = ''0'', lights = ''0'', plug4 = ''0'', stop = ''0''\<rparr>))
     = \<lparr>pump = ''1'', aerator = ''0'', lights = ''0'', plug4 = ''0'', stop = ''0''\<rparr>"
  by (simp add: py_eval handleButtonData_def nth_opt_eq)


section \<open>Log validation\<close>

lemma pyint_of_float_ok: "(\<exists>n. pyint_of_float x = Inr n) \<longleftrightarrow> (\<exists>r. x = Finite r)"
  by (cases x) (auto simp: pyint_of_float_def)

lemma validate_loop_iff:
  "\<forall>i\<in>set is. i < length data \<Longrightarrow>
   validate_loop is data \<longleftrightarrow> (\<forall>i\<in>set is. finite_literal (data ! i))"
proof (induction "is")
  case Nil
  then show ?case by simp
next
  case (Cons i "is")
  then show ?case
    by (auto simp: nth_opt_eq finite_literal_def pyint_of_float_def
             split: option.splits pyfloat.splits sum.splits)
qed

text \<open>
  C3, as the code has it. A list of fields passes \<open>validateFileData\<close> exactly when
  it has 9 entries and each of the entries 1 to 7 (three sensor values, four actuator
  flags) is the literal of a float with a finite value: \<open>int()\<close> is applied to the
  float, which it truncates, so a non-integral value such as \<open>23.5\<close> passes. The
  loop is \<open>range(1, 8)\<close>: entry 8 is not looked at.
\<close>

theorem validateFileData_iff:
  "validateFileData data \<longleftrightarrow>
     length data = 9 \<and> (\<forall>i\<in>{1..7}. finite_literal (data ! i))"
proof (cases "length data = 9")
  case True
  have s: "set [1..<8] = {1..7::nat}" by auto
  from True have "\<forall>i\<in>set [1..<8]. i < length data" by auto
  from validate_loop_iff[OF this] True show ?thesis
    by (simp only: validateFileData_def s) simp
next
  case False
  then show ?thesis by (simp add: validateFileData_def)
qed

text \<open>
  A line whose ninth field is no number passes; a line with \<open>on\<close> as a flag does not.
\<close>

theorem validateFileData_iff_witness:
  "validateFileData (split_comma ''1700000000,72,7,6,1,0,0,0,STOP'')
   \<and> \<not> validateFileData (split_comma ''1700000000,72,7,6,1,0,0,on,0'')"
  using validateFileData_iff[of "split_comma ''1700000000,72,7,6,1,0,0,0,STOP''"]
        validateFileData_iff[of "split_comma ''1700000000,72,7,6,1,0,0,on,0''"]
  by (simp add: ball_1_7 finite_literal_def py_eval)

text \<open>
  The claim rejects every line with a non-integral payload value; the code accepts the
  line \<open>1700000000,23.5,7.1,6.8,1,0,0,0,0\<close>.
\<close>

theorem validateFileData_non_integral_counterexample:
  "validateFileData (split_comma ''1700000000,23.5,7.1,6.8,1,0,0,0,0'')"
  by (simp add: validateFileData_def upt_1_8 nth_opt_eq py_eval)

section \<open>Durable Log Store: compaction\<close>

lemma LF_space: "is_space (CHR 0x0A)"
  by (simp add: is_space_def)

lemma rstrip_idem: "rstrip (rstrip s) = rstrip s"
  by (simp add: rstrip_def)

lemma rstrip_snoc_space: "is_space c \<Longrightarrow> rstrip (s @ [c]) = rstrip s"
  by (simp add: rstrip_def)

lemma set_rstrip: "set (rstrip s) \<subseteq> set s"
  using set_dropWhileD[of _ is_space "rev s"] by (auto simp: rstrip_def)

lemma no_CR_universal: "CHR 0x0D \<notin> set (universal_newlines s)"
  by (induction s rule: universal_newlines.induct) auto

lemma universal_newlines_id: "CHR 0x0D \<notin> set s \<Longrightarrow> universal_newlines s = s"
  by (induction s rule: universal_newlines.induct) auto

lemma concat_file_lines: "concat (file_lines s) = s"
  by (induction s) (auto split: list.splits)

lemma file_lines_subset: "line \<in> set (file_lines s) \<Longrightarrow> set line \<subseteq> set s"
proof -
  assume "line \<in> set (file_lines s)"
  then have "set line \<subseteq> set (concat (file_lines s))" by auto
  then show ?thesis by (simp only: concat_file_lines)
qed

lemma file_lines_shape:
  "line \<in> set (file_lines s) \<Longrightarrow>
   \<exists>b. CHR 0x0A \<notin> set b \<and> (line = b @ [CHR 0x0A] \<or> line = b)"
proof (induction s arbitrary: line)
  case Nil
  then show ?case by simp
next
  case (Cons c s)
  show ?case
  proof (cases "c = CHR 0x0A")
    case True
    with Cons.prems have "line = [CHR 0x0A] \<or> line \<in> set (file_lines s)" by auto
    then show ?thesis
    proof
      assume "line = [CHR 0x0A]"
      then have "CHR 0x0A \<notin> set [] \<and> (line = [] @ [CHR 0x0A] \<or> line = [])" by simp
      then show ?thesis by blast
    next
      assume "line \<in> set (file_lines s)"
      then show ?thesis by (rule Cons.IH)
    qed
  next
    case False
    show ?thesis
    proof (cases "file_lines s")
      case Nil
      with False Cons.prems have "line = [c]" by simp
      with False have "CHR 0x0A \<notin> set [c] \<and> (line = [c] @ [CHR 0x0A] \<or> line = [c])" by simp
      then show ?thesis by blast
    next
      case (Cons l ls)
      with False Cons.prems have "line = c # l \<or> line \<in> set ls" by auto
      then show ?thesis
      proof
        assume line: "line = c # l"
        from Cons have "l \<in> set (file_lines s)" by simp
        from Cons.IH[OF this] obtain b where
          b: "CHR 0x0A \<notin> set b" "l = b @ [CHR 0x0A] \<or> l = b" by blast
        with False line have
          "CHR 0x0A \<notin> set (c # b) \<and> (line = (c # b) @ [CHR 0x0A] \<or> line = c # b)" by auto
        then show ?thesis by blast
      next
        assume "line \<in> set ls"
        with Cons have "line \<in> set (file_lines s)" by simp
        then show ?thesis by (rule Cons.IH)
      qed
    qed
  qed
qed

lemma rstrip_line_no_LF:
  assumes "line \<in> set (file_lines s)"
  shows "CHR 0x0A \<notin> set (rstrip line)"
proof -
  from file_lines_shape[OF assms] obtain b where
    b: "CHR 0x0A \<notin> set b" "line = b @ [CHR 0x0A] \<or> line = b" by blast
  have "rstrip line = rstrip b"
    using b(2) by (auto simp: rstrip_snoc_space LF_space)
  with b(1) set_rstrip[of b] show ?thesis by auto
qed

lemma file_lines_terminated:
  "CHR 0x0A \<notin> set k \<Longrightarrow> file_lines (k @ CHR 0x0A # rest) = (k @ [CHR 0x0A]) # file_lines rest"
  by (induction k) auto

lemma file_lines_concat:
  "\<forall>k\<in>set ks. CHR 0x0A \<notin> set k \<Longrightarrow>
   file_lines (concat (map (\<lambda>l. l @ [CHR 0x0A]) ks)) = map (\<lambda>l. l @ [CHR 0x0A]) ks"
  by (induction ks) (auto simp: file_lines_terminated)

lemma clean_loop_ok:
  "\<forall>line\<in>set ls. line_timestamp (rstrip line) \<noteq> None \<Longrightarrow>
   clean_loop ret now ls out
     = Inr (out @ concat (map (\<lambda>l. l @ [CHR 0x0A]) (filter (kept_line ret now) (map rstrip ls))))"
proof (induction ls arbitrary: out)
  case Nil
  then show ?case by simp
next
  case (Cons line ls)
  from Cons.prems have ih: "\<And>out'. clean_loop ret now ls out'
     = Inr (out' @ concat (map (\<lambda>l. l @ [CHR 0x0A]) (filter (kept_line ret now) (map rstrip ls))))"
    by (intro Cons.IH) simp
  from Cons.prems obtain t where t: "line_timestamp (rstrip line) = Some t" by auto
  then obtain d0 ds where d: "split_comma (rstrip line) = d0 # ds" "pyint d0 = Some t"
    by (auto simp: line_timestamp_def split: list.splits)
  have kl: "kept_line ret now (rstrip line) = (now - t < ret \<and> validateFileData (d0 # ds))"
    by (simp add: kept_line_def t d)
  show ?case
    by (simp add: d ih kl Let_def del: split_comma.simps)
qed

lemma clean_loop_Inr_timestamps:
  "clean_loop ret now ls out = Inr r \<Longrightarrow> \<forall>line\<in>set ls. line_timestamp (rstrip line) \<noteq> None"
proof (induction ls arbitrary: out)
  case Nil
  then show ?case by simp
next
  case (Cons line ls)
  obtain d0 ds where d: "split_comma (rstrip line) = d0 # ds"
    using split_comma_nonempty[of "rstrip line"] by (cases "split_comma (rstrip line)") auto
  from Cons.prems d obtain t where t: "pyint d0 = Some t"
    by (cases "pyint d0") (auto simp: Let_def simp del: split_comma.simps)
  from Cons.prems d t obtain out' where "clean_loop ret now ls out' = Inr r"
    by (auto simp: Let_def split: if_splits simp del: split_comma.simps)
  then have "\<forall>line\<in>set ls. line_timestamp (rstrip line) \<noteq> None" by (rule Cons.IH)
  moreover have "line_timestamp (rstrip line) \<noteq> None"
    by (simp add: line_timestamp_def d t)
  ultimately show ?case by simp
qed

lemma clean_loop_Inr_compacted:
  assumes "clean_loop ret now (file_lines (universal_newlines txt)) [] = Inr out"
  shows "out = compacted ret now txt"
  using clean_loop_ok[OF clean_loop_Inr_timestamps[OF assms], of ret now "[]"] assms
  by (simp add: compacted_def)

lemma kept_line_timestamp: "kept_line ret now l \<Longrightarrow> line_timestamp l \<noteq> None"
  by (auto simp: kept_line_def split: option.splits)

lemma compacted_fixpoint: "compacted ret now (compacted ret now txt) = compacted ret now txt"
  and compacted_relines:
    "\<forall>line\<in>set (file_lines (universal_newlines (compacted ret now txt))).
        line_timestamp (rstrip line) \<noteq> None"
proof -
  let ?ls = "file_lines (universal_newlines txt)"
  let ?ks = "filter (kept_line ret now) (map rstrip ?ls)"
  have noLF: "\<forall>k\<in>set ?ks. CHR 0x0A \<notin> set k"
    by (auto dest: rstrip_line_no_LF)
  have noCR: "CHR 0x0D \<notin> set (compacted ret now txt)"
  proof -
    have "\<forall>k\<in>set ?ks. CHR 0x0D \<notin> set k"
      using no_CR_universal[of "txt"] set_rstrip file_lines_subset by fastforce
    then show ?thesis by (auto simp: compacted_def)
  qed
  have lines: "file_lines (universal_newlines (compacted ret now txt))
                 = map (\<lambda>l. l @ [CHR 0x0A]) ?ks"
    unfolding universal_newlines_id[OF noCR]
    using file_lines_concat[OF noLF] by (simp add: compacted_def)
  have strip: "map rstrip (map (\<lambda>l. l @ [CHR 0x0A]) ?ks) = ?ks"
  proof -
    have "map (rstrip \<circ> (\<lambda>l. l @ [CHR 0x0A])) ?ks = ?ks"
      by (rule map_idI) (auto simp: rstrip_snoc_space LF_space rstrip_idem)
    then show ?thesis by simp
  qed
  have keep: "filter (kept_line ret now) ?ks = ?ks" by simp
  show "compacted ret now (compacted ret now txt) = compacted ret now txt"
    unfolding compacted_def[of ret now "compacted ret now txt"] lines strip keep
    by (simp add: compacted_def)
  show "\<forall>line\<in>set (file_lines (universal_newlines (compacted ret now txt))).
        line_timestamp (rstrip line) \<noteq> None"
    unfolding lines
    by (auto simp: rstrip_snoc_space LF_space rstrip_idem dest: kept_line_timestamp)
qed

lemmas file_eval = cleanFileData_def os_replace_def validateFileData_def upt_1_8 nth_opt_eq
  compacted_def kept_line_def line_timestamp_def Let_def

lemma cleanFileData_Inr:
  assumes "data_csv fs = Some txt"
    and "\<forall>line\<in>set (file_lines (universal_newlines txt)). line_timestamp (rstrip line) \<noteq> None"
  shows "cleanFileData mdt now fs
           = Inr (os_replace (fs\<lparr>temp_csv := Some (compacted (mdt * 60) now txt)\<rparr>))"
  using assms(1) clean_loop_ok[OF assms(2), of "mdt * 60" now "[]"]
  by (simp add: cleanFileData_def compacted_def)

text \<open>
  C2, as the code has it. For every \<open>data.csv\<close> each of whose lines starts with an
  integer field, \<open>cleanFileData\<close> returns normally; the new \<open>data.csv\<close> holds,
  in their original order and each with trailing whitespace removed and one newline
  added, exactly the lines with \<open>now - timestamp < MAX_DATA_TIME * 60\<close> that pass
  \<open>validateFileData\<close>. The text is written to \<open>temp.csv\<close>, which then replaces
  \<open>data.csv\<close> and no longer exists itself.
\<close>

theorem cleanFileData_compacts:
  assumes "data_csv fs = Some txt"
    and "\<forall>line\<in>set (file_lines (universal_newlines txt)). line_timestamp (rstrip line) \<noteq> None"
  shows "cleanFileData mdt now fs
           = Inr (os_replace (fs\<lparr>temp_csv := Some (compacted (mdt * 60) now txt)\<rparr>))
       \<and> data_csv (files_after (cleanFileData mdt now fs)) = Some (compacted (mdt * 60) now txt)
       \<and> temp_csv (files_after (cleanFileData mdt now fs)) = None"
  by (simp add: cleanFileData_Inr[OF assms] os_replace_def)

text \<open>
  Four lines at \<open>now = 1000\<close> with a window of 120 seconds: one kept (its
  \<open>\\r\\n\<close> read as a newline), one too old, one with 8 fields, one kept (no newline
  after it in the input).
\<close>

theorem cleanFileData_compacts_witness:
  "cleanFileData 2 1000
     \<lparr>data_csv = Some (''900,1,2,3,1,0,0,0,0'' @ [CHR 0x0D, CHR 0x0A]
                       @ ''100,1,2,3,1,0,0,0,0'' @ [CHR 0x0A]
                       @ ''950,1,2,3,1,0,0,0'' @ [CHR 0x0A]
                       @ ''990,1.5,2,3,1,0,0,0,0''),
      temp_csv = None\<rparr>
   = Inr \<lparr>data_csv = Some (''900,1,2,3,1,0,0,0,0'' @ [CHR 0x0A]
                           @ ''990,1.5,2,3,1,0,0,0,0'' @ [CHR 0x0A]),
          temp_csv = None\<rparr>"
  using cleanFileData_compacts
    [of "\<lparr>data_csv = Some (''900,1,2,3,1,0,0,0,0'' @ [CHR 0x0D, CHR 0x0A]
                       @ ''100,1,2,3,1,0,0,0,0'' @ [CHR 0x0A]
                       @ ''950,1,2,3,1,0,0,0'' @ [CHR 0x0A]
                       @ ''990,1.5,2,3,1,0,0,0,0''),
      temp_csv = None\<rparr>"
        "''900,1,2,3,1,0,0,0,0'' @ [CHR 0x0D, CHR 0x0A]
                       @ ''100,1,2,3,1,0,0,0,0'' @ [CHR 0x0A]
                       @ ''950,1,2,3,1,0,0,0'' @ [CHR 0x0A]
                       @ ''990,1.5,2,3,1,0,0,0,0''" 2 1000]
  by (simp add: file_eval py_eval)

text \<open>
  The claim speaks of every input file and of the input lines themselves. A line whose
  first field is no integer makes \<open>int(data[0])\<close> raise ValueError: \<open>data.csv\<close> is
  left as it was and \<open>temp.csv\<close> stays behind. A kept line that ends in a blank is
  written without the blank.
\<close>

theorem cleanFileData_counterexample:
  "cleanFileData 2 1000 \<lparr>data_csv = Some (''abc'' @ [CHR 0x0A]), temp_csv = None\<rparr>
     = Inl (ValueError, \<lparr>data_csv = Some (''abc'' @ [CHR 0x0A]), temp_csv = Some []\<rparr>)
   \<and> cleanFileData 2 1000
       \<lparr>data_csv = Some (''990,1,2,3,1,0,0,0,0 '' @ [CHR 0x0A]), temp_csv = None\<rparr>
     = Inr \<lparr>data_csv = Some (''990,1,2,3,1,0,0,0,0'' @ [CHR 0x0A]), temp_csv = None\<rparr>"
  by (simp add: file_eval py_eval)

lemma cleanFileData_Inl_data:
  "cleanFileData mdt now fs = Inl (e, fs') \<Longrightarrow> data_csv fs' = data_csv fs"
  by (auto simp: cleanFileData_def split: option.splits sum.splits)

lemma cleanFileData_same_data:
  "data_csv fs' = data_csv fs \<Longrightarrow> cleanFileData mdt now fs = Inl (e, fs1) \<Longrightarrow>
   \<exists>fs2. cleanFileData mdt now fs' = Inl (e, fs2)"
  by (auto simp: cleanFileData_def split: option.splits sum.splits)

lemma cleanFileData_Inr_again:
  assumes "cleanFileData mdt now fs = Inr fs1"
  shows "cleanFileData mdt now fs1 = Inr fs1"
proof -
  from assms obtain t0 out where t0: "data_csv fs = Some t0"
    and loop: "clean_loop (mdt * 60) now (file_lines (universal_newlines t0)) [] = Inr out"
    and fs1: "fs1 = os_replace (fs\<lparr>temp_csv := Some out\<rparr>)"
    by (auto simp: cleanFileData_def split: option.splits sum.splits)
  from clean_loop_Inr_compacted[OF loop] have out: "out = compacted (mdt * 60) now t0" .
  have d1: "data_csv fs1 = Some out" by (simp add: fs1 os_replace_def)
  have "cleanFileData mdt now fs1
          = Inr (os_replace (fs1\<lparr>temp_csv := Some (compacted (mdt * 60) now out)\<rparr>))"
    using d1 compacted_relines[of "mdt * 60" now t0] unfolding out
    by (rule cleanFileData_Inr)
  also have "compacted (mdt * 60) now out = out"
    unfolding out by (rule compacted_fixpoint)
  also have "os_replace (fs1\<lparr>temp_csv := Some out\<rparr>) = fs1"
    by (simp add: fs1 os_replace_def)
  finally show ?thesis .
qed

text \<open>
  C8. For every state of the two files, running \<open>cleanFileData\<close> twice with the same
  clock reading and nothing appended in between leaves the same \<open>data.csv\<close> after
  the second run as after the first; and a first run that returns normally is followed
  by a second run that returns normally with both files unchanged.
\<close>

theorem cleanFileData_idempotent:
  "data_csv (files_after (cleanFileData mdt now (files_after (cleanFileData mdt now fs))))
     = data_csv (files_after (cleanFileData mdt now fs))
   \<and> (\<forall>fs1. cleanFileData mdt now fs = Inr fs1 \<longrightarrow> cleanFileData mdt now fs1 = Inr fs1)"
proof (cases "cleanFileData mdt now fs")
  case (Inl p)
  obtain e fs' where p: "p = (e, fs')" by (cases p)
  from Inl p have d: "data_csv fs' = data_csv fs" by (auto dest: cleanFileData_Inl_data)
  from cleanFileData_same_data[OF d] Inl p obtain fs2 where
    r: "cleanFileData mdt now fs' = Inl (e, fs2)" by blast
  then have "data_csv fs2 = data_csv fs'" by (rule cleanFileData_Inl_data)
  with Inl p r show ?thesis by simp
next
  case (Inr fs1)
  from cleanFileData_Inr_again[OF this] Inr show ?thesis by simp
qed

text \<open>
  A log with a line that loses its trailing blank and a line that is too old: the
  second run returns the files of the first.
\<close>

theorem cleanFileData_idempotent_witness:
  "cleanFileData 2 1000
     \<lparr>data_csv = Some (''900,1,2,3,1,0,0,0,0 '' @ [CHR 0x0A]
                       @ ''100,1,2,3,1,0,0,0,0'' @ [CHR 0x0A]
                       @ ''990,1,2,3,1,0,0,0,0''),
      temp_csv = None\<rparr>
   = Inr \<lparr>data_csv = Some (''900,1,2,3,1,0,0,0,0'' @ [CHR 0x0A]
                           @ ''990,1,2,3,1,0,0,0,0'' @ [CHR 0x0A]),
          temp_csv = None\<rparr>
   \<and> cleanFileData 2 1000
       \<lparr>data_csv = Some (''900,1,2,3,1,0,0,0,0'' @ [CHR 0x0A]
                           @ ''990,1,2,3,1,0,0,0,0'' @ [CHR 0x0A]),
          temp_csv = None\<rparr>
   = Inr \<lparr>data_csv = Some (''900,1,2,3,1,0,0,0,0'' @ [CHR 0x0A]
                           @ ''990,1,2,3,1,0,0,0,0'' @ [CHR 0x0A]),
          temp_csv = None\<rparr>"
proof -
  have first: "cleanFileData 2 1000
     \<lparr>data_csv = Some (''900,1,2,3,1,0,0,0,0 '' @ [CHR 0x0A]
                       @ ''100,1,2,3,1,0,0,0,0'' @ [CHR 0x0A]
                       @ ''990,1,2,3,1,0,0,0,0''),
      temp_csv = None\<rparr>
   = Inr \<lparr>data_csv = Some (''900,1,2,3,1,0,0,0,0'' @ [CHR 0x0A]
                           @ ''990,1,2,3,1,0,0,0,0'' @ [CHR 0x0A]),
          temp_csv = None\<rparr>"
    by (simp add: file_eval py_eval)
  from cleanFileData_idempotent[of 2 1000
     "\<lparr>data_csv = Some (''900,1,2,3,1,0,0,0,0 '' @ [CHR 0x0A]
                       @ ''100,1,2,3,1,0,0,0,0'' @ [CHR 0x0A]
                       @ ''990,1,2,3,1,0,0,0,0''),
      temp_csv = None\<rparr>"] first
  show ?thesis by blast
qed

section \<open>Window Cache: the invariant of append and trim\<close>

lemma aligned_push: "aligned pd \<Longrightarrow> aligned (push_row r pd)"
  by (cases r) (simp add: aligned_def push_row_def)

lemma aligned_drop: "aligned pd \<Longrightarrow> aligned (drop_rows k pd)"
  by (simp add: aligned_def drop_rows_def)

lemma rows_push: "aligned pd \<Longrightarrow> rows (push_row r pd) = rows pd @ [r]"
  by (cases r) (simp add: aligned_def push_row_def rows_def)

lemma rows_drop: "rows (drop_rows k pd) = drop k (rows pd)"
  by (simp add: rows_def drop_rows_def drop_zip)

lemma timestamps_rows: "aligned pd \<Longrightarrow> timestamps pd = map fst (rows pd)"
  by (simp add: aligned_def rows_def)

lemma row_of_fields:
  assumes "row_of data = Some (t, a, b, c)"
  shows "\<exists>d0 ds. data = d0 # ds \<and> pyint d0 = Some t" "3 < length data"
    "float_at data 1 = Some a" "float_at data 2 = Some b" "float_at data 3 = Some c"
  using assms
  by (auto simp: row_of_def float_at_def nth_opt_eq split: list.splits option.splits if_splits)

lemma handlePlotData_row:
  assumes r: "row_of data = Some r" and al: "aligned pd"
  shows "\<exists>cv'. handlePlotData mdt now data (pd, cv)
           = (None,
              drop_rows (length (takeWhile (\<lambda>t. mdt * 60 < now - t)
                                   (timestamps (push_row r pd)))) (push_row r pd),
              cv')"
proof -
  obtain t a b c where rr: "r = (t, a, b, c)" by (cases r)
  from row_of_fields[OF r[unfolded rr]] obtain d0 ds where
    d: "data = d0 # ds" "pyint d0 = Some t" and len: "3 < length data"
    and f: "float_at data 1 = Some a" "float_at data 2 = Some b" "float_at data 3 = Some c"
    by blast
  have ap: "append_row t data pd = (True, push_row r pd)"
    using f by (simp add: append_row_def rr push_row_def Let_def)
  from len have n: "nth_opt data 1 = Some (data ! 1)" "nth_opt data 2 = Some (data ! 2)"
    "nth_opt data 3 = Some (data ! 3)" by (simp_all add: nth_opt_eq)
  have tl: "trim_loop (length (timestamps (push_row r pd))) (mdt * 60) now (push_row r pd)
          = (None, drop_rows (length (takeWhile (\<lambda>t. mdt * 60 < now - t)
                                   (timestamps (push_row r pd)))) (push_row r pd))"
    by (rule trim_loop_aligned[OF aligned_push[OF al] refl])
  show ?thesis
    unfolding handlePlotData_def
    using d(2) n ap tl by (simp add: d(1) Let_def)
qed

lemma dropWhile_sorted_bound:
  "sorted xs \<Longrightarrow> \<forall>x\<in>set (dropWhile (\<lambda>t. ret < now - t) xs). now - x \<le> (ret::int)"
  by (induction xs) auto

lemma drop_of_drop_snoc:
  "\<exists>k'. drop k (drop j xs @ [x]) = drop k' (xs @ [x])"
proof (cases "j \<le> length xs")
  case True
  then have "drop k (drop j xs @ [x]) = drop (k + j) (xs @ [x])" by (simp add: add.commute)
  then show ?thesis by blast
next
  case False
  then have "drop k (drop j xs @ [x]) = drop (k + length xs) (xs @ [x])" by (simp add: add.commute)
  then show ?thesis by blast
qed

lemma handlePlotData_step_inv:
  assumes r: "row_of data = Some r"
    and al: "aligned pd" and suf: "\<exists>k. rows pd = drop k hist"
    and so: "sorted (map fst (hist @ [r]))"
  shows "\<exists>pd' cv'. handlePlotData mdt now data (pd, cv) = (None, pd', cv')
           \<and> window_inv (mdt * 60) now (hist @ [r]) pd'"
proof -
  let ?p = "push_row r pd"
  let ?k = "length (takeWhile (\<lambda>t. mdt * 60 < now - t) (timestamps ?p))"
  from handlePlotData_row[OF r al] obtain cv' where
    h: "handlePlotData mdt now data (pd, cv) = (None, drop_rows ?k ?p, cv')" by blast
  have alp: "aligned ?p" by (rule aligned_push[OF al])
  have al': "aligned (drop_rows ?k ?p)" by (rule aligned_drop[OF alp])
  from suf obtain j where j: "rows pd = drop j hist" by blast
  have "rows (drop_rows ?k ?p) = drop ?k (drop j hist @ [r])"
    by (simp add: rows_drop rows_push[OF al] j)
  with drop_of_drop_snoc[of ?k j hist r] have suf': "\<exists>k. rows (drop_rows ?k ?p) = drop k (hist @ [r])"
    by simp
  have "timestamps ?p = map fst (rows ?p)" by (rule timestamps_rows[OF alp])
  also have "\<dots> = map fst (drop j hist @ [r])" by (simp add: rows_push[OF al] j)
  finally have tsp: "timestamps ?p = drop j (map fst hist) @ [fst r]" by (simp add: drop_map)
  have sop: "sorted (timestamps ?p)"
  proof -
    from so have s1: "sorted (map fst hist)" "\<forall>x\<in>set (map fst hist). x \<le> fst r"
      by (simp_all add: sorted_append)
    from s1(1) have "sorted (drop j (map fst hist))" by (rule sorted_wrt_drop)
    moreover from s1(2) have "\<forall>x\<in>set (drop j (map fst hist)). x \<le> fst r"
      by (meson in_set_dropD)
    ultimately show ?thesis unfolding tsp by (simp add: sorted_append)
  qed
  have ts': "timestamps (drop_rows ?k ?p) = dropWhile (\<lambda>t. mdt * 60 < now - t) (timestamps ?p)"
    by (simp add: drop_rows_def dropWhile_eq_drop)
  have so': "sorted (timestamps (drop_rows ?k ?p))"
    unfolding ts' using sop by (rule sorted_dropWhile)
  have bd: "\<forall>t\<in>set (timestamps (drop_rows ?k ?p)). now - t \<le> mdt * 60"
    unfolding ts' using sop by (rule dropWhile_sorted_bound)
  from h al' suf' so' bd show ?thesis by (auto simp: window_inv_def)
qed

lemma history_Cons: "row_of data = Some r \<Longrightarrow> history ((now, data) # calls) = r # history calls"
  by (simp add: history_def List.map_filter_simps)

lemma calls_inv:
  assumes "calls \<noteq> []" and "\<forall>c\<in>set calls. row_of (snd c) \<noteq> None"
    and "aligned pd" and "\<exists>k. rows pd = drop k hist"
    and "sorted (map fst (hist @ history calls))"
  shows "\<exists>pd' cv'. handlePlotData_calls mdt calls (pd, cv) = (None, pd', cv')
           \<and> window_inv (mdt * 60) (fst (last calls)) (hist @ history calls) pd'"
  using assms
proof (induction calls arbitrary: pd cv hist)
  case Nil
  then show ?case by simp
next
  case (Cons c calls)
  obtain now data where c: "c = (now, data)" by (cases c)
  from Cons.prems(2) c obtain r where r: "row_of data = Some r" by auto
  have hc: "history (c # calls) = r # history calls" unfolding c by (rule history_Cons[OF r])
  from Cons.prems(5) have so: "sorted (map fst ((hist @ [r]) @ history calls))"
    by (simp add: hc)
  then have so1: "sorted (map fst (hist @ [r]))" by (simp add: sorted_append)
  from handlePlotData_step_inv[OF r Cons.prems(3) Cons.prems(4) so1, of mdt now cv]
  obtain pd1 cv1 where h: "handlePlotData mdt now data (pd, cv) = (None, pd1, cv1)"
    and w: "window_inv (mdt * 60) now (hist @ [r]) pd1" by blast
  show ?case
  proof (cases "calls = []")
    case True
    have "history ((now, data) # calls) = [r]"
      using True r by (simp add: history_def List.map_filter_simps)
    with h w True show ?thesis unfolding c by simp
  next
    case False
    from Cons.prems(2) have pl: "\<forall>c\<in>set calls. row_of (snd c) \<noteq> None" by simp
    from w have al: "aligned pd1" and suf: "\<exists>k. rows pd1 = drop k (hist @ [r])"
      by (simp_all add: window_inv_def)
    from Cons.IH[OF False pl al suf so, of cv1] obtain pd' cv' where
      "handlePlotData_calls mdt calls (pd1, cv1) = (None, pd', cv')"
      "window_inv (mdt * 60) (fst (last calls)) ((hist @ [r]) @ history calls) pd'" by blast
    with h False show ?thesis by (simp add: c history_Cons[OF r])
  qed
qed

text \<open>
  C5, as the code has it. After any non-empty sequence of \<open>handlePlotData\<close> calls
  on an empty cache, each appending a record (integer timestamp, three float literals)
  and trimming, with the timestamps supplied in ascending order: no call raises, every
  record left in the cache satisfies \<open>now - timestamp <= MAX_DATA_TIME * 60\<close> for
  the clock reading \<open>now\<close> of the last call (a record aged exactly the retention
  time is still there), and the cache is a time-ordered contiguous suffix of the
  appended history.
\<close>

theorem window_cache_invariant:
  assumes "calls \<noteq> []" and "\<forall>c\<in>set calls. row_of (snd c) \<noteq> None"
    and "sorted (map fst (history calls))"
  shows "case handlePlotData_calls mdt calls
                (\<lparr>timestamps = [], temperature = [], ph = [], dissolved_oxygen = []\<rparr>, cv)
         of (e, pd, cv') \<Rightarrow>
              e = None \<and> aligned pd
            \<and> (\<exists>k. rows pd = drop k (history calls))
            \<and> sorted (timestamps pd)
            \<and> (\<forall>t\<in>set (timestamps pd). fst (last calls) - t \<le> mdt * 60)"
proof -
  let ?e = "\<lparr>timestamps = [], temperature = [], ph = [], dissolved_oxygen = []\<rparr>"
  have al: "aligned ?e" by (simp add: aligned_def)
  have suf: "\<exists>k. rows ?e = drop k []" by (simp add: rows_def)
  from assms(3) have so: "sorted (map fst ([] @ history calls))" by simp
  from calls_inv[OF assms(1) assms(2) al suf so, of mdt cv] show ?thesis
    by (auto simp: window_inv_def)
qed

lemmas plot_eval = handlePlotData_def append_row_def float_at_def nth_opt_eq Let_def

text \<open>
  Scenario A through the calls themselves: records at t = 0, 60, 130, each handled at
  its own time, with \<open>MAX_DATA_TIME = 2\<close>: the cache holds the records at 60 and 130.
\<close>

theorem window_cache_invariant_witness:
  "handlePlotData_calls 2
     [(0, [''0'', ''70'', ''7.1'', ''6.8'', ''1'', ''0'', ''0'', ''0'', ''0'']),
      (60, [''60'', ''71'', ''7.1'', ''6.8'', ''1'', ''0'', ''0'', ''0'', ''0'']),
      (130, [''130'', ''72'', ''7.1'', ''6.8'', ''1'', ''0'', ''0'', ''0'', ''0''])]
     (\<lparr>timestamps = [], temperature = [], ph = [], dissolved_oxygen = []\<rparr>,
      \<lparr>cur_temp = ''0'', cur_ph = ''0'', cur_dissolved_oxygen = ''0''\<rparr>)
   = (None,
      \<lparr>timestamps = [60, 130], temperature = [Finite 71, Finite 72],
       ph = [Finite (71 / 10), Finite (71 / 10)],
       dissolved_oxygen = [Finite (34 / 5), Finite (34 / 5)]\<rparr>,
      \<lparr>cur_temp = ''72'', cur_ph = ''7.1'', cur_dissolved_oxygen = ''6.8''\<rparr>)"
  using window_cache_invariant
    [of "[(0, [''0'', ''70'', ''7.1'', ''6.8'', ''1'', ''0'', ''0'', ''0'', ''0'']),
      (60, [''60'', ''71'', ''7.1'', ''6.8'', ''1'', ''0'', ''0'', ''0'', ''0'']),
      (130, [''130'', ''72'', ''7.1'', ''6.8'', ''1'', ''0'', ''0'', ''0'', ''0''])]" 2
      "\<lparr>cur_temp = ''0'', cur_ph = ''0'', cur_dissolved_oxygen = ''0''\<rparr>"]
  by (simp add: plot_eval py_eval)

text \<open>
  The claim's strict bound fails: a record stamped 0 and handled at \<open>now = 120\<close>
  with a retention of 120 seconds stays in the cache, and \<open>120 - 0 < 120\<close> is false.
\<close>

theorem window_cache_boundary_counterexample:
  "handlePlotData_calls 2
     [(120, [''0'', ''70'', ''7.1'', ''6.8'', ''1'', ''0'', ''0'', ''0'', ''0''])]
     (\<lparr>timestamps = [], temperature = [], ph = [], dissolved_oxygen = []\<rparr>,
      \<lparr>cur_temp = ''0'', cur_ph = ''0'', cur_dissolved_oxygen = ''0''\<rparr>)
   = (None,
      \<lparr>timestamps = [0], temperature = [Finite 70], ph = [Finite (71 / 10)],
       dissolved_oxygen = [Finite (34 / 5)]\<rparr>,
      \<lparr>cur_temp = ''70'', cur_ph = ''7.1'', cur_dissolved_oxygen = ''6.8''\<rparr>)
   \<and> \<not> ((120::int) - 0 < 2 * 60)"
  by (simp add: plot_eval py_eval)

end
